theory Spec2Isabelle
  imports Complex_Main
begin

section \<open>Data model\<close>

text \<open>
  The vote core of \<^verbatim>\<open>lib/supabase.ts\<close> (class \<^verbatim>\<open>ChiliDatabase\<close>) and
  \<^verbatim>\<open>lib/admin-auth.ts\<close> (class \<^verbatim>\<open>AdminAuth\<close>).

  Identifiers and tokens are strings. The five ratings are JavaScript numbers that the
  \<^verbatim>\<open>votes\<close> table stores in integer columns: they are modelled as \<^typ>\<open>int\<close>, with no
  bound, because \<^verbatim>\<open>submitVote\<close> accepts any number. The average is computed in exact
  rational arithmetic (\<^typ>\<open>rat\<close>) where the source uses doubles. Timestamps are
  milliseconds since the epoch, the unit of \<^verbatim>\<open>Date.now()\<close>.
\<close>

text \<open>A row of the \<^verbatim>\<open>votes\<close> table, with the columns written by \<^verbatim>\<open>submitVote\<close>;
  \<^verbatim>\<open>created_at\<close> is filled in by the database when the row is inserted.\<close>

record vote_row =
  chili_id :: string
  session_id :: string
  device_fingerprint :: "string option"
  ip_address :: "string option"
  overall_rating :: int
  taste_rating :: int
  presentation_rating :: int
  creativity_rating :: int
  spice_balance_rating :: int
  comments :: "string option"
  created_at :: int

text \<open>A row of \<^verbatim>\<open>chili_entries\<close> (interface \<^verbatim>\<open>ChiliEntry\<close>): the two naming columns and
  the three aggregate columns.\<close>

record chili_entry =
  name :: string
  contestant_name :: string
  vote_count :: int
  total_score :: int
  average_rating :: rat

text \<open>The argument of \<^verbatim>\<open>submitVote\<close>: interface \<^verbatim>\<open>VoteSubmission\<close> extended with the
  identity fields. Optional fields are options; the submission's \<^verbatim>\<open>comments\<close> field is
  called \<open>voteComments\<close> here, the column of the row keeps the name.\<close>

record category_ratings =
  taste :: int
  presentation :: int
  creativity :: int
  spiceBalance :: int

record vote_submission =
  chiliId :: string
  overallRating :: int
  categoryRatings :: category_ratings
  voteComments :: "string option"
  sessionId :: string
  deviceFingerprint :: "string option"
  ipAddress :: "string option"

text \<open>Interface \<^verbatim>\<open>AdminSession\<close>, and what \<^verbatim>\<open>localStorage\<close> holds under
  \<^verbatim>\<open>ADMIN_SESSION_KEY\<close>: nothing, a string that \<^verbatim>\<open>JSON.parse\<close> refuses, or a session.\<close>

record admin_session =
  authenticated :: bool
  expires :: int

datatype stored_item = NoItem | Unparsable | Item admin_session

section \<open>The persistence client\<close>

text \<open>
  A value that is thrown or delivered in the \<^verbatim>\<open>error\<close> field of a response: an instance
  of \<^verbatim>\<open>Error\<close> with its message, or any other value.
\<close>

datatype thrown = ErrorInstance string | OtherValue

text \<open>
  Every awaited request to the store has one of three outcomes, which the environment
  chooses: it succeeds, it resolves with the \<^verbatim>\<open>error\<close> field set and \<^verbatim>\<open>data\<close> null
  (the form the source tests with \<^verbatim>\<open>if (error) throw error\<close>), or the awaited promise
  rejects, which throws at the \<^verbatim>\<open>await\<close>.
\<close>

datatype outcome = Succeeds | ErrorResult thrown | Throws thrown

text \<open>The outcome of each of the six requests one submission can send.\<close>

record faults =
  q_session :: outcome
  q_fingerprint :: outcome
  q_ip :: outcome
  q_insert :: outcome
  q_select :: outcome
  q_update :: outcome

datatype 'a response = Thrown thrown | Resolved (data: "'a option") (error: "thrown option")

text \<open>
  \<^verbatim>\<open>.maybeSingle()\<close> of the query builder: no matching row resolves with \<^verbatim>\<open>data\<close> null,
  one matching row with that row, and more than one matching row with an error result
  (code PGRST116) whose \<^verbatim>\<open>data\<close> is null.
\<close>

fun maybeSingle :: "outcome \<Rightarrow> 'a list \<Rightarrow> 'a response" where
  "maybeSingle (Throws t) rows = Thrown t"
| "maybeSingle (ErrorResult t) rows = Resolved None (Some t)"
| "maybeSingle Succeeds [] = Resolved None None"
| "maybeSingle Succeeds [r] = Resolved (Some r) None"
| "maybeSingle Succeeds (r # r' # rs) = Resolved None (Some OtherValue)"

text \<open>A \<^verbatim>\<open>select\<close> without \<^verbatim>\<open>maybeSingle\<close> resolves with the list of matching rows.\<close>

fun select_rows :: "outcome \<Rightarrow> 'a list \<Rightarrow> ('a list) response" where
  "select_rows (Throws t) rows = Thrown t"
| "select_rows (ErrorResult t) rows = Resolved None (Some t)"
| "select_rows Succeeds rows = Resolved (Some rows) None"

text \<open>The requests a submission can send, in the order of the source.\<close>

datatype db_call =
  SelectSession | SelectFingerprint | SelectIp | InsertVote | SelectRatings | UpdateEntry

text \<open>
  The state the code reads and writes: the two tables, the admin item of
  \<^verbatim>\<open>localStorage\<close>, whether \<^verbatim>\<open>window\<close> is defined, the requests sent to the store so
  far and the lines written with \<^verbatim>\<open>console.error\<close>.
\<close>

record world =
  votes :: "vote_row list"
  entries :: "string \<rightharpoonup> chili_entry"
  localStorage :: stored_item
  has_window :: bool
  calls :: "db_call list"
  console :: "string list"

definition call :: "world \<Rightarrow> db_call \<Rightarrow> world" where
  "call w c = w\<lparr>calls := calls w @ [c]\<rparr>"

definition console_error :: "world \<Rightarrow> string \<Rightarrow> world" where
  "console_error w msg = w\<lparr>console := console w @ [msg]\<rparr>"

text \<open>JavaScript truthiness of an optional string, and \<^verbatim>\<open>x || null\<close>.\<close>

fun truthy :: "string option \<Rightarrow> bool" where
  "truthy None = False"
| "truthy (Some s) = (s \<noteq> [])"

definition or_null :: "string option \<Rightarrow> string option" where
  "or_null x = (if truthy x then x else None)"

section \<open>AdminAuth\<close>

definition clearSession :: "world \<Rightarrow> world" where
  "clearSession w = (if \<not> has_window w then w else w\<lparr>localStorage := NoItem\<rparr>)"

definition isAuthenticated :: "int \<Rightarrow> world \<Rightarrow> bool \<times> world" where
  "isAuthenticated now w =
     (if \<not> has_window w then (False, w)
      else case localStorage w of
             NoItem \<Rightarrow> (False, w)
           | Unparsable \<Rightarrow> (False, console_error w ''Error checking admin session:'')
           | Item session \<Rightarrow>
               if expires session < now then (False, clearSession w)
               else (authenticated session, w))"

section \<open>ChiliDatabase.validateVote\<close>

datatype validation = Validation (allowed: bool) (reason: "string option")

definition session_reason :: string where
  "session_reason = ''You have already voted for this chili''"

definition fingerprint_reason :: string where
  "fingerprint_reason = ''This device has already voted for this chili''"

definition ip_reason :: string where
  "ip_reason = ''Multiple votes detected from this network. Please wait a few minutes.''"

text \<open>The rows each of the three queries matches.\<close>

definition session_rows :: "vote_row list \<Rightarrow> string \<Rightarrow> string \<Rightarrow> vote_row list" where
  "session_rows vs chiliId' sessionId' =
     filter (\<lambda>v. session_id v = sessionId' \<and> chili_id v = chiliId') vs"

definition fingerprint_rows :: "vote_row list \<Rightarrow> string \<Rightarrow> string \<Rightarrow> vote_row list" where
  "fingerprint_rows vs chiliId' fp =
     filter (\<lambda>v. device_fingerprint v = Some fp \<and> chili_id v = chiliId') vs"

definition ip_rows :: "vote_row list \<Rightarrow> int \<Rightarrow> string \<Rightarrow> string \<Rightarrow> vote_row list" where
  "ip_rows vs now chiliId' ip =
     filter (\<lambda>v. ip_address v = Some ip \<and> chili_id v = chiliId'
                \<and> now - 5 * 60 * 1000 \<le> created_at v) vs"

text \<open>The third check, entered once the first two have passed.\<close>

definition ip_check :: "faults \<Rightarrow> int \<Rightarrow> world \<Rightarrow> string \<Rightarrow> string option \<Rightarrow> validation \<times> world" where
  "ip_check fl now w chiliId' ipAddress' =
     (if truthy ipAddress' then
        (let w3 = call w SelectIp in
         case maybeSingle (q_ip fl) (ip_rows (votes w) now chiliId' (the ipAddress')) of
           Thrown t \<Rightarrow> (Validation True None, console_error w3 ''Error validating vote:'')
         | Resolved d e \<Rightarrow>
             if d \<noteq> None then (Validation False (Some ip_reason), w3)
             else (Validation True None, w3))
      else (Validation True None, w))"

definition validateVote ::
  "faults \<Rightarrow> int \<Rightarrow> world \<Rightarrow> string \<Rightarrow> string \<Rightarrow> string \<Rightarrow> string option \<Rightarrow> validation \<times> world" where
  "validateVote fl now w chiliId' sessionId' fp ipAddress' =
     (let w1 = call w SelectSession in
      case maybeSingle (q_session fl) (session_rows (votes w) chiliId' sessionId') of
        Thrown t \<Rightarrow> (Validation True None, console_error w1 ''Error validating vote:'')
      | Resolved d e \<Rightarrow>
          if d \<noteq> None then (Validation False (Some session_reason), w1)
          else
            (let w2 = call w1 SelectFingerprint in
             case maybeSingle (q_fingerprint fl) (fingerprint_rows (votes w) chiliId' fp) of
               Thrown t \<Rightarrow> (Validation True None, console_error w2 ''Error validating vote:'')
             | Resolved d' e' \<Rightarrow>
                 if d' \<noteq> None then (Validation False (Some fingerprint_reason), w2)
                 else ip_check fl now w2 chiliId' ipAddress'))"

section \<open>ChiliDatabase.updateChiliStats\<close>

text \<open>\<^verbatim>\<open>Math.round\<close>: the nearest integer, a half rounded towards plus infinity.\<close>

definition Math_round :: "rat \<Rightarrow> int" where
  "Math_round x = \<lfloor>x + 1 / 2\<rfloor>"

definition chili_rows :: "vote_row list \<Rightarrow> string \<Rightarrow> vote_row list" where
  "chili_rows vs chiliId' = filter (\<lambda>v. chili_id v = chiliId') vs"

text \<open>The \<^verbatim>\<open>update(...).eq('id', chiliId)\<close>: it changes the row of that id when there is
  one and no row otherwise.\<close>

definition update_entry ::
  "(string \<rightharpoonup> chili_entry) \<Rightarrow> string \<Rightarrow> int \<Rightarrow> int \<Rightarrow> rat \<Rightarrow> (string \<rightharpoonup> chili_entry)" where
  "update_entry es chiliId' n totalScore avg =
     (case es chiliId' of
        None \<Rightarrow> es
      | Some e \<Rightarrow> es(chiliId' \<mapsto> e\<lparr>vote_count := n, total_score := totalScore, average_rating := avg\<rparr>))"

definition updateChiliStats :: "faults \<Rightarrow> world \<Rightarrow> string \<Rightarrow> world" where
  "updateChiliStats fl w chiliId' =
     (let w1 = call w SelectRatings in
      case select_rows (q_select fl) (chili_rows (votes w) chiliId') of
        Thrown t \<Rightarrow> console_error w1 ''Error updating chili stats:''
      | Resolved d e \<Rightarrow>
          if e \<noteq> None then console_error w1 ''Error updating chili stats:''
          else
            (case d of
               None \<Rightarrow> w1
             | Some rows \<Rightarrow>
                 if length rows > 0 then
                   (let totalScore = foldl (\<lambda>sum vote. sum + overall_rating vote) 0 rows;
                        averageRating = of_int totalScore / of_int (int (length rows));
                        w2 = call w1 UpdateEntry
                    in case q_update fl of
                         Succeeds \<Rightarrow>
                           w2\<lparr>entries := update_entry (entries w2) chiliId' (int (length rows))
                                 totalScore (of_int (Math_round (averageRating * 10)) / 10)\<rparr>
                       | ErrorResult t \<Rightarrow> console_error w2 ''Error updating chili stats:''
                       | Throws t \<Rightarrow> console_error w2 ''Error updating chili stats:'')
                 else w1))"

section \<open>ChiliDatabase.submitVote\<close>

text \<open>How the promise of \<^verbatim>\<open>submitVote\<close> settles: resolved, or rejected with a value.\<close>

datatype submit_result = Submitted | Failed thrown

text \<open>The \<^verbatim>\<open>catch\<close> block of \<^verbatim>\<open>submitVote\<close>.\<close>

definition rethrow :: "world \<Rightarrow> thrown \<Rightarrow> submit_result \<times> world" where
  "rethrow w t =
     (Failed (case t of ErrorInstance m \<Rightarrow> ErrorInstance m
                      | OtherValue \<Rightarrow> ErrorInstance ''Failed to submit vote''),
      console_error w ''Error submitting vote:'')"

text \<open>The row that the \<^verbatim>\<open>insert\<close> of \<^verbatim>\<open>submitVote\<close> writes at time \<open>now\<close>.\<close>

definition vote_row_of :: "int \<Rightarrow> vote_submission \<Rightarrow> vote_row" where
  "vote_row_of now vote =
     \<lparr> chili_id = chiliId vote,
       session_id = sessionId vote,
       device_fingerprint = or_null (deviceFingerprint vote),
       ip_address = or_null (ipAddress vote),
       overall_rating = overallRating vote,
       taste_rating = taste (categoryRatings vote),
       presentation_rating = presentation (categoryRatings vote),
       creativity_rating = creativity (categoryRatings vote),
       spice_balance_rating = spiceBalance (categoryRatings vote),
       comments = or_null (voteComments vote),
       created_at = now \<rparr>"

text \<open>Lines 52 to 67: the admin check and, for other callers, the validator.\<close>

definition check_vote :: "faults \<Rightarrow> int \<Rightarrow> world \<Rightarrow> vote_submission \<Rightarrow> validation \<times> world" where
  "check_vote fl now w vote =
     (let (isAdmin, w0) = isAuthenticated now w in
      if \<not> isAdmin \<and> truthy (deviceFingerprint vote) then
        validateVote fl now w0 (chiliId vote) (sessionId vote)
          (the (deviceFingerprint vote)) (ipAddress vote)
      else (Validation True None, w0))"

text \<open>Lines 69 to 90: the insert and the recomputation of the entry's statistics.\<close>

definition record_vote :: "faults \<Rightarrow> int \<Rightarrow> world \<Rightarrow> vote_submission \<Rightarrow> submit_result \<times> world" where
  "record_vote fl now w vote =
     (let w2 = call w InsertVote in
      case q_insert fl of
        Throws t \<Rightarrow> rethrow w2 t
      | ErrorResult t \<Rightarrow> rethrow w2 t
      | Succeeds \<Rightarrow>
          (Submitted,
           updateChiliStats fl (w2\<lparr>votes := votes w2 @ [vote_row_of now vote]\<rparr>) (chiliId vote)))"

definition submitVote :: "faults \<Rightarrow> int \<Rightarrow> world \<Rightarrow> vote_submission \<Rightarrow> submit_result \<times> world" where
  "submitVote fl now w vote =
     (let (validation, w1) = check_vote fl now w vote in
      if \<not> allowed validation then
        rethrow w1 (ErrorInstance (if truthy (reason validation) then the (reason validation)
                                   else ''Duplicate vote detected''))
      else record_vote fl now w1 vote)"

section \<open>Sequences of submissions\<close>

text \<open>
  A step is one call of \<^verbatim>\<open>submitVote\<close>: the outcomes of its requests, the clock
  reading and the submission. \<open>run\<close> performs the steps one after the other, whether
  they are accepted or not.
\<close>

type_synonym step = "faults \<times> int \<times> vote_submission"

fun run :: "step list \<Rightarrow> world \<Rightarrow> world" where
  "run [] w = w"
| "run ((fl, now, vote) # ss) w = run ss (snd (submitVote fl now w vote))"

text \<open>The overall ratings of the accepted submissions for entry \<open>E\<close>, in order: those
  steps whose \<^verbatim>\<open>submitVote\<close> resolved.\<close>

fun accepted_ratings :: "string \<Rightarrow> step list \<Rightarrow> world \<Rightarrow> int list" where
  "accepted_ratings E [] w = []"
| "accepted_ratings E ((fl, now, vote) # ss) w =
     (if fst (submitVote fl now w vote) = Submitted \<and> chiliId vote = E
      then [overallRating vote] else [])
     @ accepted_ratings E ss (snd (submitVote fl now w vote))"

text \<open>Rounding to one decimal place, a half rounded up.\<close>

definition round1 :: "rat \<Rightarrow> rat" where
  "round1 x = of_int \<lfloor>x * 10 + 1 / 2\<rfloor> / 10"

text \<open>The requests of the validator and of the statistics recomputation among a list of
  requests.\<close>

definition validator_calls :: "db_call list \<Rightarrow> db_call list" where
  "validator_calls cs =
     filter (\<lambda>c. c = SelectSession \<or> c = SelectFingerprint \<or> c = SelectIp) cs"

definition stats_calls :: "db_call list \<Rightarrow> db_call list" where
  "stats_calls cs = filter (\<lambda>c. c = SelectRatings \<or> c = UpdateEntry) cs"

text \<open>The requests sent between two states of the same execution.\<close>

definition new_calls :: "world \<Rightarrow> world \<Rightarrow> db_call list" where
  "new_calls w w' = drop (length (calls w)) (calls w')"

text \<open>Whether a request fails, and whether it fails by throwing.\<close>

fun fails :: "outcome \<Rightarrow> bool" where
  "fails Succeeds = False"
| "fails (ErrorResult t) = True"
| "fails (Throws t) = True"

fun throws :: "outcome \<Rightarrow> bool" where
  "throws (Throws t) = True"
| "throws Succeeds = False"
| "throws (ErrorResult t) = False"

text \<open>The outcome that the environment gives to a request.\<close>

fun outcome_of :: "faults \<Rightarrow> db_call \<Rightarrow> outcome" where
  "outcome_of fl SelectSession = q_session fl"
| "outcome_of fl SelectFingerprint = q_fingerprint fl"
| "outcome_of fl SelectIp = q_ip fl"
| "outcome_of fl InsertVote = q_insert fl"
| "outcome_of fl SelectRatings = q_select fl"
| "outcome_of fl UpdateEntry = q_update fl"

section \<open>Example data\<close>

text \<open>An entry without votes, a store that holds only this entry, and an environment in
  which every request succeeds.\<close>

definition texas_red :: chili_entry where
  "texas_red = \<lparr> name = ''Texas Red'', contestant_name = ''Sam'',
                  vote_count = 0, total_score = 0, average_rating = 0 \<rparr>"

definition world0 :: world where
  "world0 = \<lparr> votes = [], entries = [''E1'' \<mapsto> texas_red], localStorage = NoItem,
               has_window = True, calls = [], console = [] \<rparr>"

definition no_faults :: faults where
  "no_faults = \<lparr> q_session = Succeeds, q_fingerprint = Succeeds, q_ip = Succeeds,
                  q_insert = Succeeds, q_select = Succeeds, q_update = Succeeds \<rparr>"

text \<open>A submission for entry \<open>E1\<close> with the given session, fingerprint and overall
  rating, and the row it is stored as at time 1000.\<close>

definition ballot :: "string \<Rightarrow> string option \<Rightarrow> int \<Rightarrow> vote_submission" where
  "ballot sid fp r =
     \<lparr> chiliId = ''E1'', overallRating = r,
       categoryRatings = \<lparr> taste = 4, presentation = 4, creativity = 4, spiceBalance = 4 \<rparr>,
       voteComments = None, sessionId = sid, deviceFingerprint = fp, ipAddress = None \<rparr>"

definition stored :: "string \<Rightarrow> string option \<Rightarrow> int \<Rightarrow> vote_row" where
  "stored sid fp r = vote_row_of 1000 (ballot sid fp r)"

text \<open>A logged-in administrator whose session expires at time 90000000.\<close>

definition admin_world :: world where
  "admin_world =
     world0\<lparr>localStorage := Item \<lparr> authenticated = True, expires = 90000000 \<rparr>\<rparr>"

text \<open>A store whose entry \<open>E1\<close> has no vote and aggregate fields that are not zero.\<close>

definition stale_world :: world where
  "stale_world =
     world0\<lparr>entries := [''E1'' \<mapsto> texas_red\<lparr>vote_count := 7, total_score := 30,
                                              average_rating := 43 / 10\<rparr>]\<rparr>"

text \<open>The invariant of an entry's aggregate fields.\<close>

definition stats_consistent :: "chili_entry \<Rightarrow> bool" where
  "stats_consistent e \<longleftrightarrow>
     (vote_count e > 0 \<longrightarrow>
        average_rating e = round1 (of_int (total_score e) / of_int (vote_count e)))"

text \<open>The same administrator over a store that already holds a vote for another entry,
  \<open>E2\<close>.\<close>

definition admin_store :: world where
  "admin_store = admin_world\<lparr>votes := [(stored ''S7'' None 2)\<lparr>chili_id := ''E2''\<rparr>]\<rparr>"

section \<open>Evaluation and frame lemmas\<close>

lemmas example_defs =
  world0_def texas_red_def no_faults_def ballot_def stored_def vote_row_of_def or_null_def

lemmas model_defs =
  submitVote_def check_vote_def record_vote_def rethrow_def isAuthenticated_def clearSession_def
  validateVote_def ip_check_def session_rows_def fingerprint_rows_def ip_rows_def
  updateChiliStats_def chili_rows_def update_entry_def Math_round_def
  call_def console_error_def session_reason_def fingerprint_reason_def ip_reason_def

lemma call_fields [simp]:
  "votes (call w c) = votes w" "entries (call w c) = entries w"
  "localStorage (call w c) = localStorage w" "has_window (call w c) = has_window w"
  "calls (call w c) = calls w @ [c]" "console (call w c) = console w"
  by (simp_all add: call_def)

lemma console_error_fields [simp]:
  "votes (console_error w m) = votes w" "entries (console_error w m) = entries w"
  "localStorage (console_error w m) = localStorage w"
  "has_window (console_error w m) = has_window w"
  "calls (console_error w m) = calls w" "console (console_error w m) = console w @ [m]"
  by (simp_all add: console_error_def)

lemma ip_check_frame [simp]:
  "votes (snd (ip_check fl now w E ip)) = votes w"
  "entries (snd (ip_check fl now w E ip)) = entries w"
  "localStorage (snd (ip_check fl now w E ip)) = localStorage w"
  "has_window (snd (ip_check fl now w E ip)) = has_window w"
  by (simp_all add: ip_check_def Let_def split: response.splits)

lemma validateVote_frame [simp]:
  "votes (snd (validateVote fl now w E S F ip)) = votes w"
  "entries (snd (validateVote fl now w E S F ip)) = entries w"
  "localStorage (snd (validateVote fl now w E S F ip)) = localStorage w"
  "has_window (snd (validateVote fl now w E S F ip)) = has_window w"
  by (simp_all add: validateVote_def Let_def split: response.splits)

lemma isAuthenticated_frame [simp]:
  "votes (snd (isAuthenticated now w)) = votes w"
  "entries (snd (isAuthenticated now w)) = entries w"
  "has_window (snd (isAuthenticated now w)) = has_window w"
  "calls (snd (isAuthenticated now w)) = calls w"
  by (simp_all add: isAuthenticated_def clearSession_def split: stored_item.splits)

lemma check_vote_frame [simp]:
  "votes (snd (check_vote fl now w vote)) = votes w"
  "entries (snd (check_vote fl now w vote)) = entries w"
  "has_window (snd (check_vote fl now w vote)) = has_window w"
  by (simp_all add: check_vote_def split: prod.splits)
     (metis isAuthenticated_frame snd_conv)+

lemma filter_nonempty_iff: "filter P xs \<noteq> [] \<longleftrightarrow> (\<exists>x\<in>set xs. P x)"
  by (simp add: filter_empty_conv)

section \<open>The validator's chain of checks\<close>

text \<open>
  What the chain does when the lookups it performs resolve without an error, that is,
  when the store answers each request and at most one stored vote matches each query:
  the session check, then the fingerprint check, then, for a supplied address, the
  network check, stopping at the first that finds a vote; the verdict is one of four
  values.
\<close>

lemma validateVote_chain:
  assumes "q_session fl = Succeeds \<and> length (session_rows (votes w) E S) \<le> 1"
    and "session_rows (votes w) E S = [] \<longrightarrow>
           q_fingerprint fl = Succeeds \<and> length (fingerprint_rows (votes w) E F) \<le> 1"
    and "session_rows (votes w) E S = [] \<and> fingerprint_rows (votes w) E F = [] \<and> truthy ip \<longrightarrow>
           q_ip fl = Succeeds \<and> length (ip_rows (votes w) now E (the ip)) \<le> 1"
  shows "fst (validateVote fl now w E S F ip) =
     (if \<exists>v\<in>set (votes w). chili_id v = E \<and> session_id v = S
      then Validation False (Some session_reason)
      else if \<exists>v\<in>set (votes w). chili_id v = E \<and> device_fingerprint v = Some F
      then Validation False (Some fingerprint_reason)
      else if truthy ip \<and> (\<exists>v\<in>set (votes w). chili_id v = E \<and> ip_address v = ip
                                \<and> now - 5 * 60 * 1000 \<le> created_at v)
      then Validation False (Some ip_reason)
      else Validation True None)"
proof -
  let ?sr = "session_rows (votes w) E S"
  let ?fr = "fingerprint_rows (votes w) E F"
  let ?ir = "ip_rows (votes w) now E (the ip)"
  have s: "?sr \<noteq> [] \<longleftrightarrow> (\<exists>v\<in>set (votes w). chili_id v = E \<and> session_id v = S)"
    unfolding session_rows_def filter_nonempty_iff by auto
  have f: "?fr \<noteq> [] \<longleftrightarrow> (\<exists>v\<in>set (votes w). chili_id v = E \<and> device_fingerprint v = Some F)"
    unfolding fingerprint_rows_def filter_nonempty_iff by auto
  have i: "truthy ip \<and> ?ir \<noteq> [] \<longleftrightarrow>
      truthy ip \<and> (\<exists>v\<in>set (votes w). chili_id v = E \<and> ip_address v = ip
                      \<and> now - 5 * 60 * 1000 \<le> created_at v)"
    unfolding ip_rows_def filter_nonempty_iff by (cases ip) auto
  have ms: "\<And>rows::vote_row list. length rows \<le> 1 \<Longrightarrow>
      maybeSingle Succeeds rows = Resolved (if rows = [] then None else Some (hd rows)) None"
    subgoal for rows by (cases rows) auto
    done
  have "fst (validateVote fl now w E S F ip) =
     (if ?sr \<noteq> [] then Validation False (Some session_reason)
      else if ?fr \<noteq> [] then Validation False (Some fingerprint_reason)
      else if truthy ip \<and> ?ir \<noteq> [] then Validation False (Some ip_reason)
      else Validation True None)"
  proof (cases "?sr = []")
    case False
    with assms(1) show ?thesis
      by (simp add: validateVote_def ms Let_def)
  next
    case sr: True
    with assms(2) have fp: "q_fingerprint fl = Succeeds" "length ?fr \<le> 1" by simp_all
    show ?thesis
    proof (cases "?fr = []")
      case False
      with assms(1) sr fp show ?thesis
        by (simp add: validateVote_def ms Let_def)
    next
      case fr: True
      show ?thesis
      proof (cases "truthy ip")
        case False
        with assms(1) sr fp fr show ?thesis
          by (simp add: validateVote_def ip_check_def ms Let_def)
      next
        case True
        with assms(3) sr fr have "q_ip fl = Succeeds" "length ?ir \<le> 1" by simp_all
        with True assms(1) sr fp fr show ?thesis
          by (simp add: validateVote_def ip_check_def ms Let_def)
      qed
    qed
  qed
  then show ?thesis
    unfolding s f i .
qed

text \<open>
  C1 does not hold of the code. With one stored vote of session \<open>S1\<close> for the entry, a
  submission of \<open>S1\<close> is rejected at the session check. With two such votes the query of
  the session check matches two rows, \<^verbatim>\<open>.maybeSingle()\<close> resolves with null \<^verbatim>\<open>data\<close>, the
  check passes, the fingerprint check passes in the same way, and the submission is
  allowed. The code reaches such a store by itself: an administrator submits twice for
  the entry; once the administrator's session has expired, the same session and device
  submit a third time and are accepted.
\<close>

theorem validateVote_misses_repeated_session:
  "fst (validateVote no_faults 3000 (world0\<lparr>votes := [stored ''S1'' (Some ''F1'') 5]\<rparr>)
          ''E1'' ''S1'' ''F1'' None)
     = Validation False (Some session_reason)
   \<and> map session_id [stored ''S1'' (Some ''F1'') 5, stored ''S1'' (Some ''F1'') 4] = [''S1'', ''S1'']
   \<and> map chili_id [stored ''S1'' (Some ''F1'') 5, stored ''S1'' (Some ''F1'') 4] = [''E1'', ''E1'']
   \<and> fst (validateVote no_faults 3000
            (world0\<lparr>votes := [stored ''S1'' (Some ''F1'') 5, stored ''S1'' (Some ''F1'') 4]\<rparr>)
            ''E1'' ''S1'' ''F1'' None)
       = Validation True None
   \<and> votes (run [(no_faults, 1000, ballot ''S1'' (Some ''F1'') 5),
                  (no_faults, 1000, ballot ''S1'' (Some ''F1'') 4)] admin_world)
       = [stored ''S1'' (Some ''F1'') 5, stored ''S1'' (Some ''F1'') 4]
   \<and> fst (isAuthenticated 99000000
            (run [(no_faults, 1000, ballot ''S1'' (Some ''F1'') 5),
                  (no_faults, 1000, ballot ''S1'' (Some ''F1'') 4)] admin_world)) = False
   \<and> fst (submitVote no_faults 99000000
            (run [(no_faults, 1000, ballot ''S1'' (Some ''F1'') 5),
                  (no_faults, 1000, ballot ''S1'' (Some ''F1'') 4)] admin_world)
            (ballot ''S1'' (Some ''F1'') 3)) = Submitted
   \<and> map session_id
        (votes (snd (submitVote no_faults 99000000
            (run [(no_faults, 1000, ballot ''S1'' (Some ''F1'') 5),
                  (no_faults, 1000, ballot ''S1'' (Some ''F1'') 4)] admin_world)
            (ballot ''S1'' (Some ''F1'') 3)))) = [''S1'', ''S1'', ''S1'']"
  by (simp add: admin_world_def example_defs model_defs floor_eq_iff)

section \<open>Failing lookups\<close>

lemma reasons_distinct [simp]:
  "session_reason \<noteq> fingerprint_reason" "session_reason \<noteq> ip_reason"
  "fingerprint_reason \<noteq> ip_reason" "fingerprint_reason \<noteq> session_reason"
  "ip_reason \<noteq> session_reason" "ip_reason \<noteq> fingerprint_reason"
  by (simp_all add: session_reason_def fingerprint_reason_def ip_reason_def)

lemma maybeSingle_fails:
  "fails oc \<Longrightarrow> (\<exists>t. maybeSingle oc rows = Thrown t) \<or> (\<exists>e. maybeSingle oc rows = Resolved None e)"
  by (cases oc) auto

lemma new_calls_append [simp]: "new_calls w (w'\<lparr>calls := calls w @ cs\<rparr>) = cs"
  by (simp add: new_calls_def)

lemma ip_check_calls:
  "calls (snd (ip_check fl now w E ip)) =
     calls w @ (if truthy ip then [SelectIp] else [])"
  by (simp add: ip_check_def Let_def split: response.splits)

lemma validateVote_calls:
  "\<exists>cs. calls (snd (validateVote fl now w E S F ip)) = calls w @ cs
        \<and> set cs \<subseteq> {SelectSession, SelectFingerprint, SelectIp}"
  by (auto simp: validateVote_def Let_def ip_check_calls split: response.splits)

text \<open>
  What holds of failing lookups: a lookup that throws when it is performed gives
  \<^verbatim>\<open>{ allowed: true }\<close>; a check whose lookup failed is never the reason of a rejection;
  and when all three lookups fail the vote is allowed.
\<close>

lemma validateVote_fail_open:
  "(let r = validateVote fl now w E S F ip in
      ((\<exists>c\<in>set (new_calls w (snd r)). throws (outcome_of fl c)) \<longrightarrow> fst r = Validation True None)
    \<and> (fails (q_session fl) \<longrightarrow> reason (fst r) \<noteq> Some session_reason)
    \<and> (fails (q_fingerprint fl) \<longrightarrow> reason (fst r) \<noteq> Some fingerprint_reason)
    \<and> (fails (q_ip fl) \<longrightarrow> reason (fst r) \<noteq> Some ip_reason)
    \<and> (fails (q_session fl) \<and> fails (q_fingerprint fl) \<and> fails (q_ip fl)
         \<longrightarrow> fst r = Validation True None))"
proof -
  let ?s = "maybeSingle (q_session fl) (session_rows (votes w) E S)"
  let ?f = "maybeSingle (q_fingerprint fl) (fingerprint_rows (votes w) E F)"
  let ?i = "maybeSingle (q_ip fl) (ip_rows (votes w) now E (the ip))"
  note defs = validateVote_def ip_check_def Let_def new_calls_def
  show ?thesis
  proof (cases ?s)
    case (Thrown t)
    then show ?thesis by (simp add: defs)
  next
    case s: (Resolved d e)
    have s1: "fails (q_session fl) \<Longrightarrow> d = None"
      using maybeSingle_fails[of "q_session fl" "session_rows (votes w) E S"] s by auto
    have s2: "\<not> throws (q_session fl)"
      using s by (cases "q_session fl") auto
    show ?thesis
    proof (cases "d = None")
      case False
      with s s1 s2 show ?thesis by (auto simp: defs)
    next
      case dn: True
      show ?thesis
      proof (cases ?f)
        case (Thrown t)
        with s dn show ?thesis by (simp add: defs)
      next
        case f: (Resolved d' e')
        have f1: "fails (q_fingerprint fl) \<Longrightarrow> d' = None"
          using maybeSingle_fails[of "q_fingerprint fl" "fingerprint_rows (votes w) E F"] f by auto
        have f2: "\<not> throws (q_fingerprint fl)"
          using f by (cases "q_fingerprint fl") auto
        show ?thesis
        proof (cases "d' = None")
          case False
          with s dn f f1 s2 f2 show ?thesis by (auto simp: defs)
        next
          case dn': True
          show ?thesis
          proof (cases "truthy ip")
            case False
            with s dn f dn' s2 f2 show ?thesis by (auto simp: defs)
          next
            case ipt: True
            show ?thesis
            proof (cases ?i)
              case (Thrown t)
              with s dn f dn' ipt show ?thesis by (simp add: defs)
            next
              case i: (Resolved d'' e'')
              have i1: "fails (q_ip fl) \<Longrightarrow> d'' = None"
                using maybeSingle_fails[of "q_ip fl" "ip_rows (votes w) now E (the ip)"] i by auto
              have i2: "\<not> throws (q_ip fl)"
                using i by (cases "q_ip fl") auto
              from s dn f dn' ipt i i1 s2 f2 i2 show ?thesis by (auto simp: defs)
            qed
          qed
        qed
      qed
    qed
  qed
qed

text \<open>After a session lookup that resolved with an error result, a fingerprint lookup that
  succeeds and finds a stored vote rejects.\<close>

lemma validateVote_rejects_after_error_result:
  assumes "q_session fl = ErrorResult t" and "q_fingerprint fl = Succeeds"
    and "fingerprint_rows (votes w) E F = [r]"
  shows "fst (validateVote fl now w E S F ip) = Validation False (Some fingerprint_reason)"
  using assms by (simp add: validateVote_def Let_def)

text \<open>
  C4 does not hold of the code. \<^verbatim>\<open>validateVote\<close> never tests the \<^verbatim>\<open>error\<close> field of a
  response, so a session lookup that fails with an error result is read as "no vote
  found" and the chain goes on: the fingerprint lookup is sent, finds the stored vote of
  the device, and the vote is rejected, where the specification has
  \<^verbatim>\<open>{ allowed: true }\<close>. The same failure delivered as a thrown error is allowed.
\<close>

theorem validateVote_rejects_after_failed_lookup:
  "fails (q_session (no_faults\<lparr>q_session := ErrorResult OtherValue\<rparr>))
   \<and> validateVote (no_faults\<lparr>q_session := ErrorResult OtherValue\<rparr>) 2000
        (world0\<lparr>votes := [stored ''S1'' (Some ''F1'') 5]\<rparr>) ''E1'' ''S2'' ''F1'' None
       = (Validation False (Some fingerprint_reason),
          world0\<lparr>votes := [stored ''S1'' (Some ''F1'') 5],
                 calls := [SelectSession, SelectFingerprint]\<rparr>)
   \<and> fst (validateVote (no_faults\<lparr>q_session := Throws OtherValue\<rparr>) 2000
        (world0\<lparr>votes := [stored ''S1'' (Some ''F1'') 5]\<rparr>) ''E1'' ''S2'' ''F1'' None)
       = Validation True None
   \<and> fst (submitVote (no_faults\<lparr>q_session := ErrorResult OtherValue\<rparr>) 2000
        (world0\<lparr>votes := [stored ''S1'' (Some ''F1'') 5]\<rparr>) (ballot ''S2'' (Some ''F1'') 4))
       = Failed (ErrorInstance fingerprint_reason)"
  by (simp add: example_defs model_defs)

section \<open>Failures of the insert and of the recomputation\<close>

lemma stats_calls_append [simp]: "stats_calls (xs @ ys) = stats_calls xs @ stats_calls ys"
  by (simp add: stats_calls_def)

lemma validator_calls_append [simp]:
  "validator_calls (xs @ ys) = validator_calls xs @ validator_calls ys"
  by (simp add: validator_calls_def)

lemma validateVote_stats_calls [simp]:
  "stats_calls (calls (snd (validateVote fl now w E S F ip))) = stats_calls (calls w)"
proof -
  obtain cs where cs: "calls (snd (validateVote fl now w E S F ip)) = calls w @ cs"
    "set cs \<subseteq> {SelectSession, SelectFingerprint, SelectIp}"
    using validateVote_calls by blast
  have "stats_calls cs = []"
    unfolding stats_calls_def filter_empty_conv using cs(2) by auto
  with cs(1) show ?thesis by simp
qed

lemma check_vote_stats_calls [simp]:
  "stats_calls (calls (snd (check_vote fl now w vote))) = stats_calls (calls w)"
proof (cases "isAuthenticated now w")
  case (Pair a w0)
  then have "calls w0 = calls w"
    using isAuthenticated_frame(4)[of now w] by simp
  with Pair show ?thesis by (simp add: check_vote_def)
qed

lemma rethrow_fields [simp]:
  "votes (snd (rethrow w t)) = votes w" "entries (snd (rethrow w t)) = entries w"
  "calls (snd (rethrow w t)) = calls w" "console (snd (rethrow w t)) = console w @ [''Error submitting vote:'']"
  "fst (rethrow w t) = Failed (case t of ErrorInstance m \<Rightarrow> ErrorInstance m
                                  | OtherValue \<Rightarrow> ErrorInstance ''Failed to submit vote'')"
  by (simp_all add: rethrow_def)

text \<open>
  C5. If the insert of the vote row fails (an error result or a thrown error),
  \<^verbatim>\<open>submitVote\<close> fails as a whole, no request of the statistics recomputation is sent,
  and the entries, with their \<^verbatim>\<open>vote_count\<close>, \<^verbatim>\<open>total_score\<close> and \<^verbatim>\<open>average_rating\<close>, and
  the stored votes are unchanged.
\<close>

theorem submitVote_insert_failure:
  assumes "fails (q_insert fl)"
  shows "(\<exists>t. fst (submitVote fl now w vote) = Failed t)
       \<and> stats_calls (calls (snd (submitVote fl now w vote))) = stats_calls (calls w)
       \<and> entries (snd (submitVote fl now w vote)) = entries w
       \<and> votes (snd (submitVote fl now w vote)) = votes w"
proof (cases "check_vote fl now w vote")
  case (Pair v w1)
  then have w1: "stats_calls (calls w1) = stats_calls (calls w)" "entries w1 = entries w"
      "votes w1 = votes w"
    using check_vote_stats_calls[of fl now w vote] check_vote_frame(1,2)[of fl now w vote] by simp_all
  show ?thesis
  proof (cases "allowed v")
    case False
    with Pair w1 show ?thesis
      by (simp add: submitVote_def)
  next
    case True
    from assms obtain t where "q_insert fl = ErrorResult t \<or> q_insert fl = Throws t"
      by (cases "q_insert fl") auto
    with Pair True w1 show ?thesis
      by (auto simp: submitVote_def record_vote_def Let_def stats_calls_def)
  qed
qed

text \<open>
  C5, witness: the insert resolves with an error result; the submission fails with the
  generic message, after the two lookups and the insert no further request is sent, and
  the tables are as before.
\<close>

theorem submitVote_insert_failure_witness:
  "fails (q_insert (no_faults\<lparr>q_insert := ErrorResult OtherValue\<rparr>))
   \<and> fst (submitVote (no_faults\<lparr>q_insert := ErrorResult OtherValue\<rparr>) 1000 world0
            (ballot ''S1'' (Some ''F1'') 5)) = Failed (ErrorInstance ''Failed to submit vote'')
   \<and> calls (snd (submitVote (no_faults\<lparr>q_insert := ErrorResult OtherValue\<rparr>) 1000 world0
            (ballot ''S1'' (Some ''F1'') 5))) = [SelectSession, SelectFingerprint, InsertVote]
   \<and> entries (snd (submitVote (no_faults\<lparr>q_insert := ErrorResult OtherValue\<rparr>) 1000 world0
            (ballot ''S1'' (Some ''F1'') 5))) = entries world0
   \<and> votes (snd (submitVote (no_faults\<lparr>q_insert := ErrorResult OtherValue\<rparr>) 1000 world0
            (ballot ''S1'' (Some ''F1'') 5))) = votes world0"
proof -
  have h: "fails (q_insert (no_faults\<lparr>q_insert := ErrorResult OtherValue\<rparr>))"
    by simp
  show ?thesis
    using h submitVote_insert_failure [OF h, of 1000 world0 "ballot ''S1'' (Some ''F1'') 5"]
    by (simp add: example_defs model_defs)
qed

lemma foldl_overall:
  "foldl (\<lambda>sum vote. sum + overall_rating vote) a rows = a + sum_list (map overall_rating rows)"
  by (induction rows arbitrary: a) simp_all

lemma updateChiliStats_frame [simp]:
  "votes (updateChiliStats fl w E) = votes w"
  "localStorage (updateChiliStats fl w E) = localStorage w"
  "has_window (updateChiliStats fl w E) = has_window w"
  by (simp_all add: updateChiliStats_def Let_def split: response.splits option.splits outcome.splits)

text \<open>What a recomputation whose two requests succeed writes.\<close>

lemma updateChiliStats_succeeds:
  assumes "q_select fl = Succeeds" and "q_update fl = Succeeds"
    and "chili_rows (votes w) E \<noteq> []"
  shows "entries (updateChiliStats fl w E) =
     update_entry (entries w) E (int (length (chili_rows (votes w) E)))
       (sum_list (map overall_rating (chili_rows (votes w) E)))
       (round1 (of_int (sum_list (map overall_rating (chili_rows (votes w) E)))
                / of_int (int (length (chili_rows (votes w) E)))))"
    and "calls (updateChiliStats fl w E) = calls w @ [SelectRatings, UpdateEntry]"
    and "console (updateChiliStats fl w E) = console w"
  using assms
  by (simp_all add: updateChiliStats_def Let_def foldl_overall round1_def Math_round_def)

lemma updateChiliStats_fails:
  assumes "fails (q_select fl) \<or> fails (q_update fl)" and "chili_rows (votes w) E \<noteq> []"
  shows "entries (updateChiliStats fl w E) = entries w"
    and "console (updateChiliStats fl w E) = console w @ [''Error updating chili stats:'']"
  using assms
  by (cases "q_select fl"; cases "q_update fl";
      simp add: updateChiliStats_def Let_def)+

text \<open>
  C6. When a submission is not rejected by the validator and its insert succeeds, a failure of the
  statistics recomputation (of its select or of its update, as an error result or as a
  thrown error) does not reach the caller: \<^verbatim>\<open>submitVote\<close> resolves, the vote row is
  stored, the entries are unchanged, and the only trace of the failure is the line
  written with \<^verbatim>\<open>console.error\<close>.
\<close>

theorem submitVote_stats_failure_swallowed:
  assumes "allowed (fst (check_vote fl now w vote))" and "q_insert fl = Succeeds"
    and "fails (q_select fl) \<or> fails (q_update fl)"
  shows "fst (submitVote fl now w vote) = Submitted
       \<and> votes (snd (submitVote fl now w vote)) = votes w @ [vote_row_of now vote]
       \<and> entries (snd (submitVote fl now w vote)) = entries w
       \<and> console (snd (submitVote fl now w vote))
           = console (snd (check_vote fl now w vote)) @ [''Error updating chili stats:'']"
proof (cases "check_vote fl now w vote")
  case (Pair v w1)
  then have w1: "entries w1 = entries w" "votes w1 = votes w"
    using check_vote_frame(1,2)[of fl now w vote] by simp_all
  let ?w2 = "(call w1 InsertVote)\<lparr>votes := votes (call w1 InsertVote) @ [vote_row_of now vote]\<rparr>"
  have rows: "chili_rows (votes ?w2) (chiliId vote) \<noteq> []"
    by (simp add: chili_rows_def vote_row_of_def)
  have "entries (updateChiliStats fl ?w2 (chiliId vote)) = entries ?w2"
    and "console (updateChiliStats fl ?w2 (chiliId vote))
         = console ?w2 @ [''Error updating chili stats:'']"
    using updateChiliStats_fails[OF assms(3) rows] by simp_all
  with Pair assms(1,2) w1 show ?thesis
    by (simp add: submitVote_def record_vote_def Let_def)
qed

text \<open>
  C6, witness: the select of the recomputation resolves with an error result; the vote
  is stored and the failure is logged.
\<close>

theorem submitVote_stats_failure_swallowed_witness:
  "allowed (fst (check_vote (no_faults\<lparr>q_select := ErrorResult OtherValue\<rparr>) 1000 world0
                  (ballot ''S1'' (Some ''F1'') 5)))
   \<and> fst (submitVote (no_faults\<lparr>q_select := ErrorResult OtherValue\<rparr>) 1000 world0
            (ballot ''S1'' (Some ''F1'') 5)) = Submitted
   \<and> votes (snd (submitVote (no_faults\<lparr>q_select := ErrorResult OtherValue\<rparr>) 1000 world0
            (ballot ''S1'' (Some ''F1'') 5))) = [stored ''S1'' (Some ''F1'') 5]
   \<and> console (snd (submitVote (no_faults\<lparr>q_select := ErrorResult OtherValue\<rparr>) 1000 world0
            (ballot ''S1'' (Some ''F1'') 5))) = [''Error updating chili stats:'']"
proof -
  let ?fl = "no_faults\<lparr>q_select := ErrorResult OtherValue\<rparr>"
  have h1: "allowed (fst (check_vote ?fl 1000 world0 (ballot ''S1'' (Some ''F1'') 5)))"
    by (simp add: example_defs model_defs)
  have h2: "q_insert ?fl = Succeeds" by (simp add: no_faults_def)
  have h3: "fails (q_select ?fl) \<or> fails (q_update ?fl)" by simp
  have g: "console (snd (check_vote ?fl 1000 world0 (ballot ''S1'' (Some ''F1'') 5))) = []"
    by (simp add: example_defs model_defs)
  show ?thesis
    using h1 g submitVote_stats_failure_swallowed [OF h1 h2 h3]
    by (simp add: example_defs)
qed

section \<open>What the recomputation writes\<close>

lemma update_entry_other: "E' \<noteq> E \<Longrightarrow> update_entry es E n t a E' = es E'"
  by (simp add: update_entry_def split: option.splits)

lemma updateChiliStats_entries_other:
  "E' \<noteq> E \<Longrightarrow> entries (updateChiliStats fl w E) E' = entries w E'"
  by (simp add: updateChiliStats_def Let_def update_entry_other
      split: response.splits option.splits outcome.splits)

lemma updateChiliStats_no_rows:
  assumes "chili_rows (votes w) E = []"
  shows "entries (updateChiliStats fl w E) = entries w"
    and "UpdateEntry \<notin> set (new_calls w (updateChiliStats fl w E))"
  using assms
  by (cases "q_select fl"; simp add: updateChiliStats_def Let_def new_calls_def call_def
      console_error_def)+

lemma submitVote_entries_other:
  "E' \<noteq> chiliId vote \<Longrightarrow> entries (snd (submitVote fl now w vote)) E' = entries w E'"
proof (cases "check_vote fl now w vote")
  case (Pair v w1)
  assume "E' \<noteq> chiliId vote"
  moreover have "entries w1 = entries w"
    using Pair check_vote_frame(2)[of fl now w vote] by simp
  ultimately show ?thesis
    using Pair
    by (cases "q_insert fl")
       (simp_all add: submitVote_def record_vote_def Let_def updateChiliStats_entries_other)
qed

lemma submitVote_entries_changed:
  assumes "entries (snd (submitVote fl now w vote)) \<noteq> entries w"
  shows "votes (snd (submitVote fl now w vote)) = votes w @ [vote_row_of now vote]"
proof (cases "check_vote fl now w vote")
  case (Pair v w1)
  have "entries w1 = entries w" "votes w1 = votes w"
    using Pair check_vote_frame(1,2)[of fl now w vote] by simp_all
  with Pair assms show ?thesis
    by (cases "q_insert fl")
       (auto simp: submitVote_def record_vote_def Let_def split: if_splits)
qed

text \<open>
  C10. For an entry without stored votes \<^verbatim>\<open>updateChiliStats\<close> writes nothing: no update
  request is sent and the entries are exactly as before, so the aggregate fields are
  not reset to 0. Whenever \<^verbatim>\<open>updateChiliStats\<close> or \<^verbatim>\<open>submitVote\<close> changes an entry, it
  is the entry of the call and that entry has at least one stored vote.
\<close>

theorem updateChiliStats_writes_only_voted_entries:
  "(chili_rows (votes w) E = [] \<longrightarrow>
      entries (updateChiliStats fl w E) = entries w
      \<and> UpdateEntry \<notin> set (new_calls w (updateChiliStats fl w E)))
   \<and> (\<forall>E'. entries (updateChiliStats fl w E) E' \<noteq> entries w E' \<longrightarrow>
          E' = E \<and> chili_rows (votes w) E \<noteq> [])
   \<and> (\<forall>E'. entries (snd (submitVote fl now w vote)) E' \<noteq> entries w E' \<longrightarrow>
          E' = chiliId vote \<and> chili_rows (votes (snd (submitVote fl now w vote))) E' \<noteq> [])"
proof (intro conjI allI impI)
  assume "chili_rows (votes w) E = []"
  then show "entries (updateChiliStats fl w E) = entries w"
    and "UpdateEntry \<notin> set (new_calls w (updateChiliStats fl w E))"
    by (rule updateChiliStats_no_rows)+
next
  fix E' assume d: "entries (updateChiliStats fl w E) E' \<noteq> entries w E'"
  then show "E' = E" using updateChiliStats_entries_other by blast
  from d show "chili_rows (votes w) E \<noteq> []"
    using updateChiliStats_no_rows(1)[of w E fl] by auto
next
  fix E' assume d: "entries (snd (submitVote fl now w vote)) E' \<noteq> entries w E'"
  then show e: "E' = chiliId vote" using submitVote_entries_other by blast
  from d have "entries (snd (submitVote fl now w vote)) \<noteq> entries w" by auto
  then have "votes (snd (submitVote fl now w vote)) = votes w @ [vote_row_of now vote]"
    by (rule submitVote_entries_changed)
  with e show "chili_rows (votes (snd (submitVote fl now w vote))) E' \<noteq> []"
    by (simp add: chili_rows_def vote_row_of_def)
qed

text \<open>
  C10, witness: an entry without votes whose aggregate fields are 7, 30 and 4.3 keeps
  them, and only the select request is sent; an accepted submission changes the entry it
  is for, which then has a stored vote.
\<close>

theorem updateChiliStats_writes_only_voted_entries_witness:
  "chili_rows (votes stale_world) ''E1'' = []
   \<and> entries (updateChiliStats no_faults stale_world ''E1'') ''E1''
       = Some (texas_red\<lparr>vote_count := 7, total_score := 30, average_rating := 43 / 10\<rparr>)
   \<and> calls (updateChiliStats no_faults stale_world ''E1'') = [SelectRatings]
   \<and> entries (snd (submitVote no_faults 1000 world0 (ballot ''S1'' None 5))) ''E1''
       \<noteq> entries world0 ''E1''
   \<and> chili_rows (votes (snd (submitVote no_faults 1000 world0 (ballot ''S1'' None 5)))) ''E1''
       \<noteq> []"
proof -
  note inst = updateChiliStats_writes_only_voted_entries
      [of stale_world "''E1''" no_faults 1000 "ballot ''S1'' None 5"]
  note inst0 = updateChiliStats_writes_only_voted_entries
      [of world0 "''E1''" no_faults 1000 "ballot ''S1'' None 5"]
  have h: "chili_rows (votes stale_world) ''E1'' = []"
    by (simp add: stale_world_def world0_def chili_rows_def)
  have "entries (updateChiliStats no_faults stale_world ''E1'') = entries stale_world"
    using inst [THEN conjunct1] h by simp
  moreover have "calls (updateChiliStats no_faults stale_world ''E1'') = [SelectRatings]"
    by (simp add: updateChiliStats_def chili_rows_def stale_world_def world0_def no_faults_def
        call_def)
  moreover have c: "entries (snd (submitVote no_faults 1000 world0 (ballot ''S1'' None 5))) ''E1''
       \<noteq> entries world0 ''E1''"
    by (simp add: example_defs model_defs floor_eq_iff)
  moreover have "chili_rows (votes (snd (submitVote no_faults 1000 world0 (ballot ''S1'' None 5))))
       ''E1'' \<noteq> []"
    using c inst0 [THEN conjunct2, THEN conjunct2] by blast
  ultimately show ?thesis
    using h by (simp add: stale_world_def world0_def)
qed

section \<open>Independence of entries\<close>

lemma filter_chili_rows [simp]:
  "session_rows (chili_rows vs E) E S = session_rows vs E S"
  "fingerprint_rows (chili_rows vs E) E F = fingerprint_rows vs E F"
  "ip_rows (chili_rows vs E) now E a = ip_rows vs now E a"
  by (auto simp: session_rows_def fingerprint_rows_def ip_rows_def chili_rows_def
      intro: filter_cong)

lemma rows_append_other:
  assumes "chili_id v \<noteq> E"
  shows "session_rows (vs @ [v]) E S = session_rows vs E S"
    and "fingerprint_rows (vs @ [v]) E F = fingerprint_rows vs E F"
    and "ip_rows (vs @ [v]) now E a = ip_rows vs now E a"
  using assms by (simp_all add: session_rows_def fingerprint_rows_def ip_rows_def)

lemma rows_none:
  assumes "\<forall>v\<in>set vs. chili_id v \<noteq> E"
  shows "session_rows vs E S = []" and "fingerprint_rows vs E F = []"
    and "ip_rows vs now E a = []"
  using assms by (auto simp: session_rows_def fingerprint_rows_def ip_rows_def filter_empty_conv)

text \<open>The verdict is a function of the rows that the three queries match.\<close>

lemma validateVote_verdict_cong:
  assumes "session_rows (votes w) E S = session_rows (votes w') E S"
    and "fingerprint_rows (votes w) E F = fingerprint_rows (votes w') E F"
    and "ip_rows (votes w) now E (the ip) = ip_rows (votes w') now E (the ip)"
  shows "fst (validateVote fl now w E S F ip) = fst (validateVote fl now w' E S F ip)"
  using assms
  by (simp add: validateVote_def ip_check_def Let_def split: response.splits)

text \<open>
  C9. The verdict of \<^verbatim>\<open>validateVote\<close> for entry \<open>E2\<close> is the verdict on the stored
  votes of \<open>E2\<close> alone, since the three queries filter on the entry's id: storing a
  vote for another entry never changes it, and when no stored vote is for \<open>E2\<close> the
  submission is allowed, whatever identity it carries and whatever the store holds for
  other entries.
\<close>

theorem validateVote_cross_entry_independence:
  "fst (validateVote fl now w E2 S F ip)
     = fst (validateVote fl now (w\<lparr>votes := chili_rows (votes w) E2\<rparr>) E2 S F ip)
   \<and> (\<forall>v. chili_id v \<noteq> E2 \<longrightarrow>
          fst (validateVote fl now (w\<lparr>votes := votes w @ [v]\<rparr>) E2 S F ip)
            = fst (validateVote fl now w E2 S F ip))
   \<and> ((\<forall>v\<in>set (votes w). chili_id v \<noteq> E2) \<longrightarrow>
          fst (validateVote fl now w E2 S F ip) = Validation True None)"
proof (intro conjI allI impI)
  show "fst (validateVote fl now w E2 S F ip)
     = fst (validateVote fl now (w\<lparr>votes := chili_rows (votes w) E2\<rparr>) E2 S F ip)"
    by (rule validateVote_verdict_cong) simp_all
next
  fix v :: vote_row assume "chili_id v \<noteq> E2"
  then show "fst (validateVote fl now (w\<lparr>votes := votes w @ [v]\<rparr>) E2 S F ip)
            = fst (validateVote fl now w E2 S F ip)"
    by (intro validateVote_verdict_cong) (simp_all add: rows_append_other)
next
  assume "\<forall>v\<in>set (votes w). chili_id v \<noteq> E2"
  then show "fst (validateVote fl now w E2 S F ip) = Validation True None"
    by (cases "q_session fl"; cases "q_fingerprint fl"; cases "q_ip fl")
       (simp_all add: validateVote_def ip_check_def Let_def rows_none)
qed

text \<open>
  C9, witness: session \<open>S1\<close> on device \<open>F1\<close> has voted for \<open>E1\<close>, once or twice; its
  submission for \<open>E2\<close> is allowed.
\<close>

theorem validateVote_cross_entry_independence_witness:
  "chili_id (stored ''S1'' (Some ''F1'') 5) \<noteq> ''E2''
   \<and> fst (validateVote no_faults 2000 (world0\<lparr>votes := [stored ''S1'' (Some ''F1'') 5]\<rparr>)
            ''E2'' ''S1'' ''F1'' None) = Validation True None
   \<and> fst (validateVote no_faults 2000
            (world0\<lparr>votes := [stored ''S1'' (Some ''F1'') 5, stored ''S1'' (Some ''F1'') 5]\<rparr>)
            ''E2'' ''S1'' ''F1'' None) = Validation True None"
proof -
  let ?w = "world0\<lparr>votes := [stored ''S1'' (Some ''F1'') 5]\<rparr>"
  note inst = validateVote_cross_entry_independence
      [of no_faults 2000 ?w "''E2''" "''S1''" "''F1''" None]
  have h: "\<forall>v\<in>set (votes ?w). chili_id v \<noteq> ''E2''"
    and h': "chili_id (stored ''S1'' (Some ''F1'') 5) \<noteq> ''E2''"
    by (simp_all add: example_defs)
  have a: "fst (validateVote no_faults 2000 ?w ''E2'' ''S1'' ''F1'' None) = Validation True None"
    using h inst [THEN conjunct2, THEN conjunct2] by blast
  have "fst (validateVote no_faults 2000
              (?w\<lparr>votes := votes ?w @ [stored ''S1'' (Some ''F1'') 5]\<rparr>) ''E2'' ''S1'' ''F1'' None)
        = fst (validateVote no_faults 2000 ?w ''E2'' ''S1'' ''F1'' None)"
    using h' inst [THEN conjunct2, THEN conjunct1] by blast
  with a h' show ?thesis by simp
qed

section \<open>Submissions without a fingerprint, and ratings out of range\<close>

text \<open>
  C2 does not hold of the code: the guard \<^verbatim>\<open>!isAdmin && vote.deviceFingerprint\<close> skips
  the whole validator when the fingerprint is undefined. A session that is not an
  administrator submits twice for the same entry without a fingerprint; both
  submissions are accepted and no lookup of the validator is sent.
\<close>

theorem submitVote_without_fingerprint_skips_validator:
  "fst (isAuthenticated 1000 world0) = False
   \<and> accepted_ratings ''E1''
        [(no_faults, 1000, ballot ''S1'' None 5), (no_faults, 2000, ballot ''S1'' None 4)] world0
       = [5, 4]
   \<and> calls (run [(no_faults, 1000, ballot ''S1'' None 5), (no_faults, 2000, ballot ''S1'' None 4)]
               world0)
       = [InsertVote, SelectRatings, UpdateEntry, InsertVote, SelectRatings, UpdateEntry]
   \<and> map session_id
        (votes (run [(no_faults, 1000, ballot ''S1'' None 5), (no_faults, 2000, ballot ''S1'' None 4)]
                  world0))
       = [''S1'', ''S1'']"
  by (simp add: example_defs model_defs floor_eq_iff)


section \<open>Aggregates after accepted votes\<close>

lemma submitVote_Submitted:
  "fst (submitVote fl now w vote) = Submitted
     \<longleftrightarrow> allowed (fst (check_vote fl now w vote)) \<and> q_insert fl = Succeeds"
  by (cases "check_vote fl now w vote"; cases "q_insert fl")
     (simp_all add: submitVote_def record_vote_def Let_def)

lemma submitVote_votes:
  "votes (snd (submitVote fl now w vote)) =
     (if fst (submitVote fl now w vote) = Submitted then votes w @ [vote_row_of now vote]
      else votes w)"
proof (cases "check_vote fl now w vote")
  case (Pair v w1)
  then have "votes w1 = votes w"
    using check_vote_frame(1)[of fl now w vote] by simp
  with Pair show ?thesis
    by (cases "q_insert fl") (simp_all add: submitVote_def record_vote_def Let_def)
qed

lemma chili_rows_snoc:
  "chili_rows (vs @ [vote_row_of now vote]) E =
     chili_rows vs E @ (if chiliId vote = E then [vote_row_of now vote] else [])"
  by (simp add: chili_rows_def vote_row_of_def)

lemma overall_rating_row [simp]: "overall_rating (vote_row_of now vote) = overallRating vote"
  by (simp add: vote_row_of_def)

lemma submitVote_entries_Submitted:
  assumes "fst (submitVote fl now w vote) = Submitted"
    and "q_select fl = Succeeds" and "q_update fl = Succeeds"
  shows "entries (snd (submitVote fl now w vote)) =
     update_entry (entries w) (chiliId vote)
       (int (length (chili_rows (votes (snd (submitVote fl now w vote))) (chiliId vote))))
       (sum_list (map overall_rating
          (chili_rows (votes (snd (submitVote fl now w vote))) (chiliId vote))))
       (round1 (of_int (sum_list (map overall_rating
                  (chili_rows (votes (snd (submitVote fl now w vote))) (chiliId vote))))
                / of_int (int (length
                  (chili_rows (votes (snd (submitVote fl now w vote))) (chiliId vote))))))"
proof (cases "check_vote fl now w vote")
  case (Pair v w1)
  from assms(1) have ok: "allowed (fst (check_vote fl now w vote))" "q_insert fl = Succeeds"
    by (simp_all add: submitVote_Submitted)
  have w1: "entries w1 = entries w" "votes w1 = votes w"
    using Pair check_vote_frame(1,2)[of fl now w vote] by simp_all
  let ?w2 = "(call w1 InsertVote)\<lparr>votes := votes (call w1 InsertVote) @ [vote_row_of now vote]\<rparr>"
  have rows: "chili_rows (votes ?w2) (chiliId vote) \<noteq> []"
    by (simp add: chili_rows_snoc)
  have s: "snd (submitVote fl now w vote) = updateChiliStats fl ?w2 (chiliId vote)"
    using Pair ok by (simp add: submitVote_def record_vote_def Let_def)
  show ?thesis
    unfolding s updateChiliStats_frame
    using updateChiliStats_succeeds(1)[OF assms(2,3) rows] w1 by simp
qed

lemma update_entry_dom [simp]: "dom (update_entry es E n t a) = dom es"
  by (auto simp: update_entry_def split: option.splits)

lemma updateChiliStats_dom [simp]: "dom (entries (updateChiliStats fl w E)) = dom (entries w)"
  by (simp add: updateChiliStats_def Let_def
      split: response.splits option.splits outcome.splits)

lemma submitVote_dom [simp]: "dom (entries (snd (submitVote fl now w vote))) = dom (entries w)"
proof (cases "check_vote fl now w vote")
  case (Pair v w1)
  then have "entries w1 = entries w"
    using check_vote_frame(2)[of fl now w vote] by simp
  with Pair show ?thesis
    by (cases "q_insert fl") (simp_all add: submitVote_def record_vote_def Let_def)
qed

lemma run_dom [simp]: "dom (entries (run ss w)) = dom (entries w)"
  by (induction ss w rule: run.induct) simp_all

lemma run_append: "run (ss @ ts) w = run ts (run ss w)"
  by (induction ss w rule: run.induct) simp_all

lemma accepted_ratings_append:
  "accepted_ratings E (ss @ ts) w = accepted_ratings E ss w @ accepted_ratings E ts (run ss w)"
  by (induction ss w rule: run.induct) simp_all

text \<open>The stored votes of an entry after a run: those it had, then one per accepted
  submission for it.\<close>

lemma run_stored_ratings:
  "map overall_rating (chili_rows (votes (run ss w)) E) =
     map overall_rating (chili_rows (votes w) E) @ accepted_ratings E ss w"
proof (induction ss w rule: run.induct)
  case (1 w)
  show ?case by simp
next
  case (2 fl now vote ss w)
  show ?case
    unfolding run.simps accepted_ratings.simps "2.IH"
    by (simp add: submitVote_votes chili_rows_snoc)
qed

text \<open>
  C3 (amended). Start from an entry \<open>E\<close> without stored votes and perform any sequence of
  submissions. Right after an accepted submission for \<open>E\<close> whose statistics
  recomputation succeeded (its select and its update), with \<open>r1..rN\<close> the overall ratings
  of the accepted submissions for \<open>E\<close> so far: \<^verbatim>\<open>vote_count\<close> is \<open>N\<close>, \<^verbatim>\<open>total_score\<close> is
  their sum and \<^verbatim>\<open>average_rating\<close> is the sum divided by \<open>N\<close>, rounded to one decimal
  with a half rounded up, because the three fields are recomputed from all stored votes
  of the entry.
\<close>

theorem aggregates_after_accepted_votes:
  assumes "chili_rows (votes w) E = []" and "E \<in> dom (entries w)"
    and "chiliId vote = E"
    and "fst (submitVote fl now (run ss w) vote) = Submitted"
    and "q_select fl = Succeeds" and "q_update fl = Succeeds"
  shows "\<exists>e. entries (run (ss @ [(fl, now, vote)]) w) E = Some e
       \<and> vote_count e = int (length (accepted_ratings E (ss @ [(fl, now, vote)]) w))
       \<and> total_score e = sum_list (accepted_ratings E (ss @ [(fl, now, vote)]) w)
       \<and> average_rating e =
           round1 (of_int (sum_list (accepted_ratings E (ss @ [(fl, now, vote)]) w))
                   / of_int (int (length (accepted_ratings E (ss @ [(fl, now, vote)]) w))))"
proof -
  let ?w1 = "run ss w"
  let ?w2 = "snd (submitVote fl now ?w1 vote)"
  let ?rs = "accepted_ratings E (ss @ [(fl, now, vote)]) w"
  let ?rows = "chili_rows (votes ?w2) E"
  have w2: "run (ss @ [(fl, now, vote)]) w = ?w2"
    by (simp add: run_append)
  have "map overall_rating (chili_rows (votes (run (ss @ [(fl, now, vote)]) w)) E) = ?rs"
    using run_stored_ratings[of "ss @ [(fl, now, vote)]" w E] assms(1) by simp
  then have rs: "map overall_rating ?rows = ?rs"
    by (simp only: w2)
  then have len: "length ?rows = length ?rs"
    by (metis length_map)
  obtain e0 where e0: "entries ?w1 E = Some e0"
    using assms(2) run_dom[of ss w] by (metis domD)
  have "entries ?w2 =
     update_entry (entries ?w1) E (int (length ?rows)) (sum_list (map overall_rating ?rows))
       (round1 (of_int (sum_list (map overall_rating ?rows)) / of_int (int (length ?rows))))"
    using submitVote_entries_Submitted[OF assms(4,5,6)] assms(3) by simp
  then have "entries ?w2 E =
     Some (e0\<lparr>vote_count := int (length ?rs), total_score := sum_list ?rs,
              average_rating := round1 (of_int (sum_list ?rs) / of_int (int (length ?rs)))\<rparr>)"
    using e0 by (simp add: update_entry_def rs len)
  then show ?thesis
    unfolding w2 by simp
qed

text \<open>
  C3, witness: the scenario of the specification. \<open>S1\<close> on device \<open>F1\<close> votes 5 and is
  accepted, votes again and is rejected, then \<open>S2\<close> on device \<open>F2\<close> votes 3: two votes,
  total 8, average 4.0.
\<close>

theorem aggregates_after_accepted_votes_witness:
  "accepted_ratings ''E1''
     ([(no_faults, 1000, ballot ''S1'' (Some ''F1'') 5),
       (no_faults, 2000, ballot ''S1'' (Some ''F1'') 4)]
      @ [(no_faults, 3000, ballot ''S2'' (Some ''F2'') 3)]) world0 = [5, 3]
   \<and> entries (run ([(no_faults, 1000, ballot ''S1'' (Some ''F1'') 5),
                     (no_faults, 2000, ballot ''S1'' (Some ''F1'') 4)]
                    @ [(no_faults, 3000, ballot ''S2'' (Some ''F2'') 3)]) world0) ''E1''
       = Some (texas_red\<lparr>vote_count := 2, total_score := 8, average_rating := 4\<rparr>)"
proof -
  let ?ss = "[(no_faults, 1000, ballot ''S1'' (Some ''F1'') 5),
              (no_faults, 2000, ballot ''S1'' (Some ''F1'') 4)]"
  let ?v = "ballot ''S2'' (Some ''F2'') 3"
  have h1: "chili_rows (votes world0) ''E1'' = []"
    by (simp add: world0_def chili_rows_def)
  have h2: "''E1'' \<in> dom (entries world0)"
    by (simp add: world0_def)
  have h3: "chiliId ?v = ''E1''"
    by (simp add: ballot_def)
  have h4: "fst (submitVote no_faults 3000 (run ?ss world0) ?v) = Submitted"
    by (simp add: example_defs model_defs floor_eq_iff)
  have h5: "q_select no_faults = Succeeds" and h6: "q_update no_faults = Succeeds"
    by (simp_all add: no_faults_def)
  have rs: "accepted_ratings ''E1'' (?ss @ [(no_faults, 3000, ?v)]) world0 = [5, 3]"
    by (simp add: example_defs model_defs floor_eq_iff)
  have e: "entries (run ?ss world0) ''E1''
      = Some (texas_red\<lparr>vote_count := 1, total_score := 5, average_rating := 5\<rparr>)"
    by (simp add: example_defs model_defs floor_eq_iff)
  obtain e where "entries (run (?ss @ [(no_faults, 3000, ?v)]) world0) ''E1'' = Some e"
    and "vote_count e = 2" and "total_score e = 8" and "average_rating e = round1 (8 / 2)"
    using aggregates_after_accepted_votes [OF h1 h2 h3 h4 h5 h6] unfolding rs by auto
  moreover have "name e = name texas_red \<and> contestant_name e = contestant_name texas_red"
    using calculation(1)
    by (auto simp add: example_defs model_defs floor_eq_iff)
  moreover have "round1 (8 / 2) = 4"
    by (simp add: round1_def floor_eq_iff)
  ultimately show ?thesis
    using rs by (simp add: texas_red_def)
qed

text \<open>
  C3 as stated fails: when the select of the recomputation fails, the submission is
  accepted (\<open>N = 1\<close>) and the entry keeps \<^verbatim>\<open>vote_count\<close> 0.
\<close>

theorem aggregates_after_accepted_votes_counterexample:
  "accepted_ratings ''E1''
     [(no_faults\<lparr>q_select := ErrorResult OtherValue\<rparr>, 1000, ballot ''S1'' (Some ''F1'') 5)]
     world0 = [5]
   \<and> entries (run [(no_faults\<lparr>q_select := ErrorResult OtherValue\<rparr>, 1000,
                     ballot ''S1'' (Some ''F1'') 5)] world0) ''E1'' = Some texas_red
   \<and> vote_count texas_red = 0"
  by (simp add: example_defs model_defs)

lemma updateChiliStats_entries_cases:
  "entries (updateChiliStats fl w E) = entries w
   \<or> (\<exists>n t. 0 < n \<and> entries (updateChiliStats fl w E)
                 = update_entry (entries w) E n t (round1 (of_int t / of_int n)))"
proof (cases "q_select fl = Succeeds \<and> q_update fl = Succeeds \<and> chili_rows (votes w) E \<noteq> []")
  case True
  let ?n = "int (length (chili_rows (votes w) E))"
  let ?t = "sum_list (map overall_rating (chili_rows (votes w) E))"
  from True have "0 < ?n" by simp
  moreover from True have "entries (updateChiliStats fl w E)
      = update_entry (entries w) E ?n ?t (round1 (of_int ?t / of_int ?n))"
    using updateChiliStats_succeeds(1)[of fl w E] by simp
  ultimately show ?thesis by blast
next
  case False
  then consider "chili_rows (votes w) E = []" | "fails (q_select fl) \<or> fails (q_update fl)"
    "chili_rows (votes w) E \<noteq> []"
    by (cases "q_select fl"; cases "q_update fl") auto
  then show ?thesis
    using updateChiliStats_no_rows(1) updateChiliStats_fails(1) by cases blast+
qed

lemma update_entry_consistent:
  assumes "0 < n" and "\<forall>e. es E' = Some e \<longrightarrow> stats_consistent e"
    and "update_entry es E n t (round1 (of_int t / of_int n)) E' = Some e'"
  shows "stats_consistent e'"
  using assms
  by (cases "E' = E") (auto simp: update_entry_def stats_consistent_def split: option.splits)

text \<open>
  Every \<^verbatim>\<open>submitVote\<close>, accepted or not and whatever fails, keeps the invariant
  \<open>average_rating = round1 (total_score / vote_count)\<close> of an entry with a positive
  \<^verbatim>\<open>vote_count\<close>.
\<close>

lemma submitVote_preserves_stats_consistent:
  assumes "\<forall>e. entries w E' = Some e \<longrightarrow> stats_consistent e"
    and "entries (snd (submitVote fl now w vote)) E' = Some e'"
  shows "stats_consistent e'"
proof (cases "check_vote fl now w vote")
  case (Pair v w1)
  then have w1: "entries w1 = entries w"
    using check_vote_frame(2)[of fl now w vote] by simp
  show ?thesis
  proof (cases "fst (submitVote fl now w vote) = Submitted")
    case False
    then have "entries (snd (submitVote fl now w vote)) = entries w"
      using submitVote_entries_changed submitVote_votes
      by (metis append_self_conv not_Cons_self2)
    with assms show ?thesis by simp
  next
    case True
    then have ok: "allowed v" "q_insert fl = Succeeds"
      using Pair by (simp_all add: submitVote_Submitted)
    let ?w2 = "(call w1 InsertVote)\<lparr>votes := votes (call w1 InsertVote) @ [vote_row_of now vote]\<rparr>"
    have s: "snd (submitVote fl now w vote) = updateChiliStats fl ?w2 (chiliId vote)"
      using Pair ok by (simp add: submitVote_def record_vote_def Let_def)
    have "entries ?w2 = entries w" using w1 by simp
    with updateChiliStats_entries_cases[of fl ?w2 "chiliId vote"] assms s
    show ?thesis
      using update_entry_consistent by (metis (no_types, lifting))
  qed
qed

section \<open>The administrator's bypass\<close>

lemma isAuthenticated_True: "fst (isAuthenticated now w) \<Longrightarrow> isAuthenticated now w = (True, w)"
  by (auto simp: isAuthenticated_def split: if_splits stored_item.splits)

lemma isAuthenticated_cong:
  "localStorage w' = localStorage w \<Longrightarrow> has_window w' = has_window w \<Longrightarrow>
   fst (isAuthenticated now w') = fst (isAuthenticated now w)"
  by (simp add: isAuthenticated_def split: stored_item.splits)

lemma check_vote_admin: "fst (isAuthenticated now w) \<Longrightarrow> check_vote fl now w vote = (Validation True None, w)"
  by (simp add: check_vote_def isAuthenticated_True)

lemma submitVote_admin:
  "fst (isAuthenticated now w) \<Longrightarrow> submitVote fl now w vote = record_vote fl now w vote"
  by (simp add: submitVote_def check_vote_admin)

lemma updateChiliStats_validator_calls [simp]:
  "validator_calls (calls (updateChiliStats fl w E)) = validator_calls (calls w)"
  by (simp add: updateChiliStats_def Let_def validator_calls_def
      split: response.splits option.splits outcome.splits)

lemma record_vote_frame:
  "localStorage (snd (record_vote fl now w vote)) = localStorage w"
  "has_window (snd (record_vote fl now w vote)) = has_window w"
  "validator_calls (calls (snd (record_vote fl now w vote))) = validator_calls (calls w)"
  by (cases "q_insert fl";
      simp add: record_vote_def Let_def rethrow_def validator_calls_def[of "[InsertVote]"])+

text \<open>While the administrator's session is valid, a run leaves it alone and never
  consults the validator.\<close>

lemma admin_run:
  assumes "\<forall>(fl, now, v)\<in>set ss. fst (isAuthenticated now w)"
  shows "localStorage (run ss w) = localStorage w \<and> has_window (run ss w) = has_window w
       \<and> validator_calls (calls (run ss w)) = validator_calls (calls w)"
  using assms
proof (induction ss arbitrary: w)
  case Nil
  show ?case by simp
next
  case (Cons s ss)
  obtain fl now v where s: "s = (fl, now, v)" by (cases s)
  let ?w' = "snd (submitVote fl now w v)"
  from Cons.prems s have a: "fst (isAuthenticated now w)" by simp
  then have w': "localStorage ?w' = localStorage w" "has_window ?w' = has_window w"
    "validator_calls (calls ?w') = validator_calls (calls w)"
    by (simp_all add: submitVote_admin record_vote_frame)
  have same: "\<And>t. fst (isAuthenticated t ?w') = fst (isAuthenticated t w)"
    using w'(1,2) by (rule isAuthenticated_cong)
  have "\<forall>(fl, now, v)\<in>set ss. fst (isAuthenticated now ?w')"
    using Cons.prems by (auto simp: same)
  from Cons.IH[OF this] w' show ?case
    by (simp add: s)
qed

lemma admin_run_votes:
  assumes "\<forall>(fl, now, v)\<in>set ss. fst (isAuthenticated now w)"
    and "\<forall>(fl, now, v)\<in>set ss. q_insert fl = Succeeds"
  shows "votes (run ss w) = votes w @ map (\<lambda>(fl, now, v). vote_row_of now v) ss"
  using assms
proof (induction ss arbitrary: w)
  case Nil
  show ?case by simp
next
  case (Cons s ss)
  obtain fl now v where s: "s = (fl, now, v)" by (cases s)
  let ?w' = "snd (submitVote fl now w v)"
  from Cons.prems s have a: "fst (isAuthenticated now w)" and i: "q_insert fl = Succeeds"
    by simp_all
  then have sub: "fst (submitVote fl now w v) = Submitted"
    by (simp add: submitVote_Submitted check_vote_admin)
  have w': "localStorage ?w' = localStorage w" "has_window ?w' = has_window w"
    using a by (simp_all add: submitVote_admin record_vote_frame)
  have same: "\<And>t. fst (isAuthenticated t ?w') = fst (isAuthenticated t w)"
    using w' by (rule isAuthenticated_cong)
  have "\<forall>(fl, now, v)\<in>set ss. fst (isAuthenticated now ?w')"
    using Cons.prems(1) by (auto simp: same)
  moreover have "\<forall>(fl, now, v)\<in>set ss. q_insert fl = Succeeds"
    using Cons.prems(2) by auto
  ultimately have "votes (run ss ?w') = votes ?w' @ map (\<lambda>(fl, now, v). vote_row_of now v) ss"
    by (rule Cons.IH)
  with sub show ?case
    by (simp add: s submitVote_votes)
qed

lemma chili_id_row [simp]: "chili_id (vote_row_of now vote) = chiliId vote"
  by (simp add: vote_row_of_def)

lemma chili_rows_append: "chili_rows (vs @ xs) E = chili_rows vs E @ chili_rows xs E"
  by (simp add: chili_rows_def)

lemma step_rows_ratings:
  "map overall_rating (chili_rows (map (\<lambda>(fl, now, v). vote_row_of now v) ss) E) =
     map (\<lambda>(fl, now, v). overallRating v) (filter (\<lambda>(fl, now, v). chiliId v = E) ss)"
proof (induction ss)
  case Nil
  show ?case by (simp add: chili_rows_def)
next
  case (Cons s ss)
  obtain fl now v where "s = (fl, now, v)" by (cases s)
  with Cons show ?case by (simp add: chili_rows_def)
qed

lemma stored_ratings_of_steps:
  "map overall_rating (chili_rows (vs @ map (\<lambda>(fl, now, v). vote_row_of now v) ss) E) =
     map overall_rating (filter (\<lambda>u. chili_id u = E) vs)
     @ map (\<lambda>(fl, now, v). overallRating v) (filter (\<lambda>(fl, now, v). chiliId v = E) ss)"
  unfolding chili_rows_append map_append step_rows_ratings
  by (simp add: chili_rows_def)

text \<open>After a run of the administrator in which every request succeeds, an entry that
  received a submission shows the aggregates of its stored votes.\<close>

lemma admin_run_recomputed:
  assumes "\<forall>(fl, now, v)\<in>set ss. fst (isAuthenticated now w)"
    and "\<forall>(fl, now, v)\<in>set ss. q_insert fl = Succeeds \<and> q_select fl = Succeeds
           \<and> q_update fl = Succeeds"
    and "\<exists>(fl, now, v)\<in>set ss. chiliId v = E" and "E \<in> dom (entries w)"
  shows "\<exists>e. entries (run ss w) E = Some e
     \<and> vote_count e = int (length (chili_rows (votes (run ss w)) E))
     \<and> total_score e = sum_list (map overall_rating (chili_rows (votes (run ss w)) E))
     \<and> average_rating e =
         round1 (of_int (sum_list (map overall_rating (chili_rows (votes (run ss w)) E)))
                 / of_int (int (length (chili_rows (votes (run ss w)) E))))"
  using assms(1,2,3)
proof (induction ss rule: rev_induct)
  case Nil
  then show ?case by simp
next
  case (snoc s ss)
  obtain fl now v where s: "s = (fl, now, v)" by (cases s)
  let ?w1 = "run ss w"
  let ?w2 = "snd (submitVote fl now ?w1 v)"
  have w2: "run (ss @ [s]) w = ?w2"
    by (simp add: s run_append)
  have ok: "q_insert fl = Succeeds" "q_select fl = Succeeds" "q_update fl = Succeeds"
    using snoc.prems(2) s by simp_all
  have adm: "\<forall>(fl, now, v)\<in>set ss. fst (isAuthenticated now w)"
    and suc: "\<forall>(fl, now, v)\<in>set ss. q_insert fl = Succeeds \<and> q_select fl = Succeeds
           \<and> q_update fl = Succeeds"
    using snoc.prems(1,2) by auto
  from admin_run[OF adm] have "fst (isAuthenticated now ?w1) = fst (isAuthenticated now w)"
    by (intro isAuthenticated_cong) simp_all
  then have "fst (isAuthenticated now ?w1)"
    using snoc.prems(1) s by simp
  then have sub: "fst (submitVote fl now ?w1 v) = Submitted"
    using ok(1) by (simp add: submitVote_Submitted check_vote_admin)
  show ?case
  proof (cases "chiliId v = E")
    case True
    obtain e0 where e0: "entries ?w1 E = Some e0"
      using assms(4) run_dom[of ss w] by (metis domD)
    let ?rows = "chili_rows (votes ?w2) E"
    have "entries ?w2 =
       update_entry (entries ?w1) E (int (length ?rows)) (sum_list (map overall_rating ?rows))
         (round1 (of_int (sum_list (map overall_rating ?rows)) / of_int (int (length ?rows))))"
      using submitVote_entries_Submitted[OF sub ok(2,3)] True by simp
    then have "entries ?w2 E =
       Some (e0\<lparr>vote_count := int (length ?rows),
                total_score := sum_list (map overall_rating ?rows),
                average_rating := round1 (of_int (sum_list (map overall_rating ?rows))
                                          / of_int (int (length ?rows)))\<rparr>)"
      using e0 by (simp add: update_entry_def)
    then show ?thesis
      unfolding w2 by simp
  next
    case False
    then have "\<exists>(fl, now, v)\<in>set ss. chiliId v = E"
      using snoc.prems(3) s by auto
    from snoc.IH[OF adm suc this] obtain e where e: "entries ?w1 E = Some e"
      "vote_count e = int (length (chili_rows (votes ?w1) E))"
      "total_score e = sum_list (map overall_rating (chili_rows (votes ?w1) E))"
      "average_rating e =
         round1 (of_int (sum_list (map overall_rating (chili_rows (votes ?w1) E)))
                 / of_int (int (length (chili_rows (votes ?w1) E))))"
      by blast
    have "entries ?w2 E = entries ?w1 E"
      using False by (simp add: submitVote_entries_other)
    moreover have "chili_rows (votes ?w2) E = chili_rows (votes ?w1) E"
      using False by (simp add: submitVote_votes chili_rows_snoc)
    ultimately show ?thesis
      unfolding w2 using e by simp
  qed
qed

text \<open>
  C7. Let \<^verbatim>\<open>AdminAuth.isAuthenticated()\<close> return true at the time of each submission of
  a sequence, of any length and with any identities, in particular the same entry and
  identity again and again. Then no lookup of the validator is ever sent, so none of
  its three checks can reject; when the inserts succeed, every submission is stored;
  and when the recomputations succeed as well, an entry \<open>E\<close> that received a submission
  has as \<^verbatim>\<open>vote_count\<close> the number of votes stored for \<open>E\<close> before plus the number of
  submissions for \<open>E\<close>, as \<^verbatim>\<open>total_score\<close> the sum of their overall ratings, and as
  \<^verbatim>\<open>average_rating\<close> the quotient rounded to one decimal.
\<close>

theorem admin_bypass:
  assumes "\<forall>(fl, now, v)\<in>set ss. fst (isAuthenticated now w)"
  shows "validator_calls (calls (run ss w)) = validator_calls (calls w)
     \<and> ((\<forall>(fl, now, v)\<in>set ss. q_insert fl = Succeeds) \<longrightarrow>
          votes (run ss w) = votes w @ map (\<lambda>(fl, now, v). vote_row_of now v) ss)
     \<and> ((\<forall>(fl, now, v)\<in>set ss. q_insert fl = Succeeds \<and> q_select fl = Succeeds
             \<and> q_update fl = Succeeds)
         \<and> (\<exists>(fl, now, v)\<in>set ss. chiliId v = E) \<and> E \<in> dom (entries w) \<longrightarrow>
          (let rs = map overall_rating (filter (\<lambda>u. chili_id u = E) (votes w))
                    @ map (\<lambda>(fl, now, v). overallRating v)
                        (filter (\<lambda>(fl, now, v). chiliId v = E) ss)
           in \<exists>e. entries (run ss w) E = Some e
                \<and> vote_count e = int (length rs)
                \<and> total_score e = sum_list rs
                \<and> average_rating e = round1 (of_int (sum_list rs) / of_int (int (length rs)))))"
proof (intro conjI impI)
  show "validator_calls (calls (run ss w)) = validator_calls (calls w)"
    using admin_run[OF assms] by simp
next
  assume "\<forall>(fl, now, v)\<in>set ss. q_insert fl = Succeeds"
  with assms show "votes (run ss w) = votes w @ map (\<lambda>(fl, now, v). vote_row_of now v) ss"
    by (rule admin_run_votes)
next
  let ?rs = "map overall_rating (filter (\<lambda>u. chili_id u = E) (votes w))
             @ map (\<lambda>(fl, now, v). overallRating v) (filter (\<lambda>(fl, now, v). chiliId v = E) ss)"
  assume h: "(\<forall>(fl, now, v)\<in>set ss. q_insert fl = Succeeds \<and> q_select fl = Succeeds
             \<and> q_update fl = Succeeds)
         \<and> (\<exists>(fl, now, v)\<in>set ss. chiliId v = E) \<and> E \<in> dom (entries w)"
  then have ins: "\<forall>(fl, now, v)\<in>set ss. q_insert fl = Succeeds"
    by auto
  have "votes (run ss w) = votes w @ map (\<lambda>(fl, now, v). vote_row_of now v) ss"
    using assms ins by (rule admin_run_votes)
  then have rs: "map overall_rating (chili_rows (votes (run ss w)) E) = ?rs"
    by (simp only: stored_ratings_of_steps)
  then have len: "length (chili_rows (votes (run ss w)) E) = length ?rs"
    by (metis length_map)
  obtain e where "entries (run ss w) E = Some e"
    "vote_count e = int (length (chili_rows (votes (run ss w)) E))"
    "total_score e = sum_list (map overall_rating (chili_rows (votes (run ss w)) E))"
    "average_rating e =
       round1 (of_int (sum_list (map overall_rating (chili_rows (votes (run ss w)) E)))
               / of_int (int (length (chili_rows (votes (run ss w)) E))))"
    using admin_run_recomputed[OF assms] h by blast
  then have "entries (run ss w) E = Some e \<and> vote_count e = int (length ?rs)
      \<and> total_score e = sum_list ?rs
      \<and> average_rating e = round1 (of_int (sum_list ?rs) / of_int (int (length ?rs)))"
    unfolding rs len by simp
  then show "let rs = ?rs in \<exists>e. entries (run ss w) E = Some e
                \<and> vote_count e = int (length rs)
                \<and> total_score e = sum_list rs
                \<and> average_rating e = round1 (of_int (sum_list rs) / of_int (int (length rs)))"
    unfolding Let_def by blast
qed

text \<open>
  C7, witness: the store holds a vote for \<open>E2\<close>; a logged-in administrator submits twice
  with session \<open>S1\<close> and device \<open>F1\<close> for \<open>E1\<close>, ratings 5 and 4. Both votes are stored
  without any lookup and \<open>E1\<close> shows 2 votes, total 9, average 4.5.
\<close>

theorem admin_bypass_witness:
  "fst (isAuthenticated 1000 admin_store) \<and> fst (isAuthenticated 2000 admin_store)
   \<and> calls (run [(no_faults, 1000, ballot ''S1'' (Some ''F1'') 5),
                  (no_faults, 2000, ballot ''S1'' (Some ''F1'') 4)] admin_store)
       = [InsertVote, SelectRatings, UpdateEntry, InsertVote, SelectRatings, UpdateEntry]
   \<and> votes (run [(no_faults, 1000, ballot ''S1'' (Some ''F1'') 5),
                  (no_faults, 2000, ballot ''S1'' (Some ''F1'') 4)] admin_store)
       = votes admin_store @ [vote_row_of 1000 (ballot ''S1'' (Some ''F1'') 5),
                              vote_row_of 2000 (ballot ''S1'' (Some ''F1'') 4)]
   \<and> entries (run [(no_faults, 1000, ballot ''S1'' (Some ''F1'') 5),
                    (no_faults, 2000, ballot ''S1'' (Some ''F1'') 4)] admin_store) ''E1''
       = Some (texas_red\<lparr>vote_count := 2, total_score := 9, average_rating := 9 / 2\<rparr>)"
proof -
  let ?ss = "[(no_faults, 1000, ballot ''S1'' (Some ''F1'') 5),
              (no_faults, 2000, ballot ''S1'' (Some ''F1'') 4)]"
  note inst = admin_bypass [of ?ss admin_store "''E1''"]
  note store_defs = admin_store_def admin_world_def
  have h: "\<forall>(fl, now, v)\<in>set ?ss. fst (isAuthenticated now admin_store)"
    by (simp add: store_defs example_defs isAuthenticated_def)
  have h2: "\<forall>(fl, now, v)\<in>set ?ss. q_insert fl = Succeeds"
    by (simp add: no_faults_def)
  have h3: "(\<forall>(fl, now, v)\<in>set ?ss. q_insert fl = Succeeds \<and> q_select fl = Succeeds
             \<and> q_update fl = Succeeds)
         \<and> (\<exists>(fl, now, v)\<in>set ?ss. chiliId v = ''E1'') \<and> ''E1'' \<in> dom (entries admin_store)"
    by (simp add: no_faults_def ballot_def store_defs world0_def)
  have rs: "map overall_rating (filter (\<lambda>u. chili_id u = ''E1'') (votes admin_store))
            @ map (\<lambda>(fl, now, v). overallRating v)
                (filter (\<lambda>(fl, now, v). chiliId v = ''E1'') ?ss) = [5, 4]"
    by (simp add: store_defs example_defs)
  have "validator_calls (calls (run ?ss admin_store)) = validator_calls (calls admin_store)"
    using inst [OF h] by blast
  have v: "votes (run ?ss admin_store)
      = votes admin_store @ map (\<lambda>(fl, now, v). vote_row_of now v) ?ss"
    using inst [OF h] h2 by blast
  obtain e where e: "entries (run ?ss admin_store) ''E1'' = Some e"
    "vote_count e = int (length [5, 4 :: int])"
    "total_score e = sum_list [5, 4]"
    "average_rating e = round1 (of_int (sum_list [5, 4]) / of_int (int (length [5, 4 :: int])))"
    using inst [OF h, THEN conjunct2, THEN conjunct2, rule_format, OF h3]
    unfolding Let_def rs by blast
  have "\<lfloor>(91::rat) / 2\<rfloor> = 45"
    by (simp add: floor_eq_iff)
  then have a: "average_rating e = 9 / 2"
    using e(4) by (simp add: round1_def)
  have names: "name e = ''Texas Red'' \<and> contestant_name e = ''Sam''"
    using e(1) by (auto simp add: store_defs example_defs model_defs floor_eq_iff)
  have cs: "calls (run ?ss admin_store)
       = [InsertVote, SelectRatings, UpdateEntry, InsertVote, SelectRatings, UpdateEntry]"
    by (simp add: store_defs example_defs model_defs floor_eq_iff)
  from h v e(1,2,3) a names cs show ?thesis
    by (simp add: texas_red_def)
qed

end
